theory Spec2Isabelle
  imports Main "HOL-Library.Word"
begin

section \<open>JavaScript strings\<close>

text \<open>
  A JavaScript string is a sequence of 16-bit code units: \<open>length\<close>, \<open>substring\<close>,
  \<open>trim\<close> and a regular expression without the \<open>u\<close> flag all work on code units.
  The literals of \<open>script.js\<close> are written \<open>jstr ''...''\<close>.
\<close>

type_synonym jschar = "16 word"
type_synonym jsstring = "jschar list"

definition jstr :: "string \<Rightarrow> jsstring" where
  "jstr s = map of_char s"

text \<open>
  The code units that \<open>String.prototype.trim\<close> strips and that \<open>\s\<close> matches in a
  regular expression: ECMAScript's WhiteSpace (TAB, VT, FF, SP, NBSP, ZWNBSP and the
  Unicode space separators) and LineTerminator (LF, CR, LS, PS).
\<close>

definition isWhiteSpace :: "jschar \<Rightarrow> bool" where
  "isWhiteSpace c =
     (c = 0x09 \<or> c = 0x0A \<or> c = 0x0B \<or> c = 0x0C \<or> c = 0x0D \<or> c = 0x20 \<or> c = 0xA0
      \<or> c = 0x1680 \<or> (0x2000 \<le> c \<and> c \<le> 0x200A) \<or> c = 0x2028 \<or> c = 0x2029
      \<or> c = 0x202F \<or> c = 0x205F \<or> c = 0x3000 \<or> c = 0xFEFF)"

definition trim :: "jsstring \<Rightarrow> jsstring" where
  "trim s = rev (dropWhile isWhiteSpace (rev (dropWhile isWhiteSpace s)))"

text \<open>
  \<open>truncateText(text, length)\<close>, lines 294-297. \<open>substring(0, length)\<close> clamps a
  negative end to 0, which \<open>nat\<close> does here.
\<close>

definition truncateText :: "jsstring \<Rightarrow> int \<Rightarrow> jsstring" where
  "truncateText text len =
     (if int (length text) \<le> len then text
      else take (nat len) text @ jstr ''...'')"

section \<open>The regular expression of isValidEmail\<close>

text \<open>
  \<open>/^[^\s@]+@[^\s@]+\.[^\s@]+$/\<close> is a sequence of character sets, each taken once or
  with \<open>+\<close>, between the anchors \<open>^\<close> and \<open>$\<close> (no \<open>m\<close> flag: the whole string).
  \<open>regex_test\<close> is the backtracking matcher for such a sequence: an item with \<open>+\<close>
  first tries to take one more code unit and otherwise goes on with the rest.
\<close>

datatype quantifier = Once | OneOrMore

type_synonym regex = "((jschar \<Rightarrow> bool) \<times> quantifier) list"

fun regex_test :: "regex \<Rightarrow> jsstring \<Rightarrow> bool" where
  "regex_test [] s = (s = [])"
| "regex_test ((P, q) # r) [] = False"
| "regex_test ((P, Once) # r) (c # cs) = (P c \<and> regex_test r cs)"
| "regex_test ((P, OneOrMore) # r) (c # cs) =
     (P c \<and> (regex_test ((P, OneOrMore) # r) cs \<or> regex_test r cs))"

definition notSpaceAt :: "jschar \<Rightarrow> bool" where
  "notSpaceAt c = (\<not> isWhiteSpace c \<and> c \<noteq> of_char CHR ''@'')"

definition emailRegex :: regex where
  "emailRegex =
     [(notSpaceAt, OneOrMore), (\<lambda>c. c = of_char CHR ''@'', Once),
      (notSpaceAt, OneOrMore), (\<lambda>c. c = of_char CHR ''.'', Once),
      (notSpaceAt, OneOrMore)]"

definition isValidEmail :: "jsstring \<Rightarrow> bool" where
  "isValidEmail email = regex_test emailRegex email"

text \<open>
  The pattern in words: a local part, \<open>@\<close>, a domain, a dot and a top-level segment,
  the three parts non-empty and free of white space and of \<open>@\<close>.
\<close>

definition email_pattern :: "jsstring \<Rightarrow> bool" where
  "email_pattern s =
     (\<exists>l d t. s = l @ jstr ''@'' @ d @ jstr ''.'' @ t
        \<and> l \<noteq> [] \<and> d \<noteq> [] \<and> t \<noteq> []
        \<and> (\<forall>c \<in> set (l @ d @ t). notSpaceAt c))"

section \<open>The page\<close>

text \<open>
  The controls that \<open>script.js\<close> looks up by identifier. \<open>name\<close>, \<open>email\<close>,
  \<open>phone\<close>, \<open>company\<close>, \<open>subject\<close> and \<open>description\<close> hold text; \<open>recordType\<close>,
  \<open>type\<close>, \<open>reason\<close> and the hidden \<open>priority\<close> are select elements.
\<close>

datatype text_id = name | email | phone | company | subject | description

datatype select_id = recordType | type | reason | priority

datatype field = TextField text_id | SelectField select_id

text \<open>
  A select element: its options, each a pair of the option's value and its display text,
  and \<open>selectedIndex\<close> (\<open>-1\<close> when no option is selected).
\<close>

record select =
  options :: "(jsstring \<times> jsstring) list"
  selectedIndex :: int

definition selectedOption :: "select \<Rightarrow> (jsstring \<times> jsstring) option" where
  "selectedOption sel =
     (if 0 \<le> selectedIndex sel \<and> selectedIndex sel < int (length (options sel))
      then Some (options sel ! nat (selectedIndex sel)) else None)"

text \<open>Reading \<open>.value\<close> of a select: the selected option's value, or the empty string.\<close>

definition select_value :: "select \<Rightarrow> jsstring" where
  "select_value sel = (case selectedOption sel of Some opt \<Rightarrow> fst opt | None \<Rightarrow> [])"

fun first_index :: "('a \<Rightarrow> bool) \<Rightarrow> 'a list \<Rightarrow> int" where
  "first_index P [] = - 1"
| "first_index P (x # xs) =
     (if P x then 0
      else (let i = first_index P xs in if i < 0 then - 1 else i + 1))"

text \<open>
  Writing \<open>.value\<close> of a select selects the first option with that value, and no option
  when there is none.
\<close>

definition select_set_value :: "jsstring \<Rightarrow> select \<Rightarrow> select" where
  "select_set_value v sel =
     sel\<lparr>selectedIndex := first_index (\<lambda>opt. fst opt = v) (options sel)\<rparr>"

record button =
  innerHTML :: jsstring
  disabled :: bool

datatype callback = ClearErrors | ShowSuccessMessage

text \<open>
  The part of the document that the controller reads and writes: the values of the text
  controls, the select elements, the \<open>data-value\<close> of each priority badge and which badge
  is active, the text of every \<open>.error-message\<close> element, the text of the
  \<open>review-...\<close> elements, the submit button, the number of success messages shown, and
  the pending callbacks that clear the messages or show the success message, each with
  its delay in milliseconds. The page is taken to hold every element the script looks up
  and to have a step on display. Styles, classes, animations and their timers, focus and
  scrolling are not part of the model.
\<close>

record page =
  texts :: "text_id \<Rightarrow> jsstring"
  selects :: "select_id \<Rightarrow> select"
  badges :: "jsstring list"
  activeBadges :: "nat list"
  errorMessages :: "jsstring list"
  review :: "field \<Rightarrow> jsstring"
  submitBtn :: button
  successMessages :: nat
  timers :: "(nat \<times> callback) list"

text \<open>\<open>document.getElementById(id).value\<close>, read and written.\<close>

fun element_value :: "page \<Rightarrow> field \<Rightarrow> jsstring" where
  "element_value p (TextField i) = texts p i"
| "element_value p (SelectField i) = select_value (selects p i)"

fun set_element_value :: "field \<Rightarrow> jsstring \<Rightarrow> page \<Rightarrow> page" where
  "set_element_value (TextField i) v p = p\<lparr>texts := (texts p)(i := v)\<rparr>"
| "set_element_value (SelectField i) v p =
     p\<lparr>selects := (selects p)(i := select_set_value v (selects p i))\<rparr>"

section \<open>The controller\<close>

text \<open>The object that \<open>saveFormData\<close> builds, lines 463-475.\<close>

record formData =
  saved :: "field \<Rightarrow> jsstring"
  savedStep :: int

text \<open>The fields of a \<open>MultiStepForm\<close> and the page it is bound to.\<close>

record form =
  currentStep :: int
  totalSteps :: int
  formDataBackup :: "formData option"
  document :: page

text \<open>
  The constructor, lines 7-12. \<open>init\<close> binds the event handlers and sets the progress bar;
  it changes nothing the model holds.
\<close>

definition MultiStepForm :: "page \<Rightarrow> form" where
  "MultiStepForm p =
     \<lparr>currentStep = 1, totalSteps = 3, formDataBackup = None, document = p\<rparr>"

text \<open>
  \<open>clearErrors\<close>, lines 332-335, and \<open>showError\<close>, lines 313-327: the message is put
  into the section of the step on display, and a timer clears it after five seconds.
\<close>

definition clearErrors :: "form \<Rightarrow> form" where
  "clearErrors s = s\<lparr>document := (document s)\<lparr>errorMessages := []\<rparr>\<rparr>"

definition setTimeout :: "callback \<Rightarrow> nat \<Rightarrow> form \<Rightarrow> form" where
  "setTimeout cb ms s = s\<lparr>document := (document s)\<lparr>timers := timers (document s) @ [(ms, cb)]\<rparr>\<rparr>"

definition showError :: "jsstring \<Rightarrow> form \<Rightarrow> form" where
  "showError message s =
     (let s1 = clearErrors s;
          s2 = s1\<lparr>document := (document s1)\<lparr>errorMessages := message # errorMessages (document s1)\<rparr>\<rparr>
      in setTimeout ClearErrors 5000 s2)"

definition getValue :: "form \<Rightarrow> field \<Rightarrow> jsstring" where
  "getValue s f = element_value (document s) f"

text \<open>\<open>validateStep1\<close>, lines 81-99: the result and the state it leaves.\<close>

definition validateStep1 :: "form \<Rightarrow> bool \<times> form" where
  "validateStep1 s =
     (let name_v = trim (getValue s (TextField name));
          email_v = trim (getValue s (TextField email))
      in if name_v = [] then
           (False, showError (jstr ''Please enter your full name'') s)
         else if email_v = [] \<or> \<not> isValidEmail email_v then
           (False, showError (jstr ''Please enter a valid email address'') s)
         else (True, clearErrors s))"

text \<open>\<open>validateStep2\<close>, lines 105-150.\<close>

definition validateStep2 :: "form \<Rightarrow> bool \<times> form" where
  "validateStep2 s =
     (let recordType_v = getValue s (SelectField recordType);
          type_v = getValue s (SelectField type);
          reason_v = getValue s (SelectField reason);
          priority_v = getValue s (SelectField priority);
          subject_v = trim (getValue s (TextField subject));
          description_v = trim (getValue s (TextField description))
      in if recordType_v = [] then
           (False, showError (jstr ''Please select a department category'') s)
         else if type_v = [] then
           (False, showError (jstr ''Please select a request type'') s)
         else if reason_v = [] then
           (False, showError (jstr ''Please select a specific issue'') s)
         else if priority_v = [] then
           (False, showError (jstr ''Please select a priority level'') s)
         else if subject_v = [] then
           (False, showError (jstr ''Please enter a subject for your request'') s)
         else if description_v = [] \<or> length description_v < 10 then
           (False, showError
              (jstr ''Please provide a detailed description (at least 10 characters)'') s)
         else (True, clearErrors s))"

text \<open>\<open>nextStep\<close>, lines 155-164, and \<open>prevStep\<close>, lines 169-178. The calls inside the
  \<open>if\<close> animate the step containers, the indicator and the progress bar.\<close>

definition nextStep :: "form \<Rightarrow> form" where
  "nextStep s =
     (if currentStep s < totalSteps s then s\<lparr>currentStep := currentStep s + 1\<rparr> else s)"

definition prevStep :: "form \<Rightarrow> form" where
  "prevStep s =
     (if currentStep s > 1 then s\<lparr>currentStep := currentStep s - 1\<rparr> else s)"

text \<open>
  \<open>selectPriority(badge)\<close>, lines 234-246; the badge is given by its position among the
  priority badges of the page, which every caller takes from the page itself.
\<close>

definition selectPriority :: "nat \<Rightarrow> form \<Rightarrow> form" where
  "selectPriority i s =
     (if i < length (badges (document s)) then
        s\<lparr>document :=
            set_element_value (SelectField priority) (badges (document s) ! i)
              ((document s)\<lparr>activeBadges := [i]\<rparr>)\<rparr>
      else s)"

text \<open>\<open>getSelectText(elementId)\<close>, lines 282-286.\<close>

definition getSelectText :: "form \<Rightarrow> select_id \<Rightarrow> jsstring" where
  "getSelectText s elementId =
     (case selectedOption (selects (document s) elementId) of
        Some opt \<Rightarrow> snd opt
      | None \<Rightarrow> [])"

text \<open>JavaScript's \<open>a || b\<close> on strings: \<open>b\<close> when \<open>a\<close> is the empty string.\<close>

definition or_else :: "jsstring \<Rightarrow> jsstring \<Rightarrow> jsstring" where
  "or_else a b = (if a = [] then b else a)"

definition setReview :: "field \<Rightarrow> jsstring \<Rightarrow> form \<Rightarrow> form" where
  "setReview f v s = s\<lparr>document := (document s)\<lparr>review := (review (document s))(f := v)\<rparr>\<rparr>"

text \<open>\<open>updateReview\<close>, lines 251-275, one assignment after the other.\<close>

definition updateReview :: "form \<Rightarrow> form" where
  "updateReview s0 =
     (let s1 = setReview (TextField name)
                 (or_else (getValue s0 (TextField name)) (jstr ''Not provided'')) s0;
          s2 = setReview (TextField email)
                 (or_else (getValue s1 (TextField email)) (jstr ''Not provided'')) s1;
          s3 = setReview (TextField phone)
                 (or_else (getValue s2 (TextField phone)) (jstr ''Not provided'')) s2;
          s4 = setReview (TextField company)
                 (or_else (getValue s3 (TextField company)) (jstr ''Not provided'')) s3;
          s5 = setReview (SelectField recordType)
                 (or_else (getSelectText s4 recordType) (jstr ''Not selected'')) s4;
          s6 = setReview (SelectField type)
                 (or_else (getSelectText s5 type) (jstr ''Not selected'')) s5;
          s7 = setReview (SelectField reason)
                 (or_else (getSelectText s6 reason) (jstr ''Not selected'')) s6;
          s8 = setReview (SelectField priority)
                 (or_else (getValue s7 (SelectField priority)) (jstr ''Not selected'')) s7;
          s9 = setReview (TextField subject)
                 (or_else (getValue s8 (TextField subject)) (jstr ''Not provided'')) s8
      in setReview (TextField description)
           (or_else (truncateText (getValue s9 (TextField description)) 150)
              (jstr ''Not provided'')) s9)"

text \<open>
  \<open>showSuccessMessage\<close>, lines 436-457, and \<open>handleFormSubmission(e)\<close>, lines 341-362.
  The event carries the flag that \<open>preventDefault\<close> sets. The label of the button is the
  literal of line 352.
\<close>

definition showSuccessMessage :: "form \<Rightarrow> form" where
  "showSuccessMessage s =
     s\<lparr>document := (document s)\<lparr>successMessages := successMessages (document s) + 1\<rparr>\<rparr>"

record event =
  defaultPrevented :: bool

definition preventDefault :: "event \<Rightarrow> event" where
  "preventDefault e = e\<lparr>defaultPrevented := True\<rparr>"

definition submitting_label :: jsstring where
  "submitting_label = [0xE2, 0xB3] @ jstr '' Submitting...''"

definition handleFormSubmission :: "event \<Rightarrow> form \<Rightarrow> event \<times> form" where
  "handleFormSubmission e s =
     (if getValue s (SelectField priority) = [] then
        (preventDefault e, showError (jstr ''Please select a priority level'') s)
      else
        (let s1 = s\<lparr>document := (document s)\<lparr>submitBtn :=
                      (submitBtn (document s))\<lparr>innerHTML := submitting_label\<rparr>\<rparr>\<rparr>;
             s2 = s1\<lparr>document := (document s1)\<lparr>submitBtn :=
                      (submitBtn (document s1))\<lparr>disabled := True\<rparr>\<rparr>\<rparr>
         in (e, setTimeout ShowSuccessMessage 1000 s2)))"

text \<open>What a scheduled callback does when its timer fires.\<close>

fun run_callback :: "callback \<Rightarrow> form \<Rightarrow> form" where
  "run_callback ClearErrors s = clearErrors s"
| "run_callback ShowSuccessMessage s = showSuccessMessage s"

text \<open>
  \<open>saveFormData\<close>, lines 462-482. \<open>keys\<close> is \<open>Object.keys(formData)\<close> without
  \<open>currentStep\<close>, in the order in which the object literal lists them.
\<close>

definition keys :: "field list" where
  "keys = [TextField name, TextField email, TextField phone, TextField company,
           SelectField recordType, SelectField type, SelectField reason,
           SelectField priority, TextField subject, TextField description]"

definition saveFormData :: "form \<Rightarrow> form" where
  "saveFormData s =
     s\<lparr>formDataBackup := Some \<lparr>saved = getValue s, savedStep = currentStep s\<rparr>\<rparr>"

text \<open>
  \<open>loadFormData\<close>, lines 487-514. The loop skips the key \<open>currentStep\<close> and writes a
  control only when the saved value is not the empty string. The selector
  \<open>[data-value="..."]\<close> finds the first badge whose \<open>data-value\<close> is the saved
  priority; a saved priority that the selector would have to escape is outside the model.
\<close>

definition restore_key :: "formData \<Rightarrow> field \<Rightarrow> page \<Rightarrow> page" where
  "restore_key fd key p =
     (if saved fd key \<noteq> [] then set_element_value key (saved fd key) p else p)"

definition loadFormData :: "form \<Rightarrow> form" where
  "loadFormData s =
     (case formDataBackup s of
        None \<Rightarrow> s
      | Some fd \<Rightarrow>
          (let s1 = s\<lparr>document := fold (restore_key fd) keys (document s)\<rparr>;
               p = saved fd (SelectField priority)
           in if p \<noteq> [] then
                (let i = first_index (\<lambda>v. v = p) (badges (document s1))
                 in if 0 \<le> i then selectPriority (nat i) s1 else s1)
              else s1))"

text \<open>
  The click handlers of the two Next buttons, lines 28-39, and a run of navigation
  calls.
\<close>

definition click_nextStep1 :: "form \<Rightarrow> form" where
  "click_nextStep1 s = (case validateStep1 s of (ok, s1) \<Rightarrow> if ok then nextStep s1 else s1)"

definition click_nextStep2 :: "form \<Rightarrow> form" where
  "click_nextStep2 s =
     (case validateStep2 s of (ok, s1) \<Rightarrow> if ok then nextStep (updateReview s1) else s1)"

datatype call = advance | retreat | next1 | next2

fun perform :: "call \<Rightarrow> form \<Rightarrow> form" where
  "perform advance s = nextStep s"
| "perform retreat s = prevStep s"
| "perform next1 s = click_nextStep1 s"
| "perform next2 s = click_nextStep2 s"

section \<open>The specification's wording\<close>

text \<open>
  "Every required field of the step is non-empty", read on the values of the controls as
  they stand.
\<close>

definition step1_required_nonempty :: "form \<Rightarrow> bool" where
  "step1_required_nonempty s =
     (getValue s (TextField name) \<noteq> [] \<and> getValue s (TextField email) \<noteq> [])"

definition step2_required_nonempty :: "form \<Rightarrow> bool" where
  "step2_required_nonempty s =
     (getValue s (SelectField recordType) \<noteq> [] \<and> getValue s (SelectField type) \<noteq> []
      \<and> getValue s (SelectField reason) \<noteq> [] \<and> getValue s (SelectField priority) \<noteq> []
      \<and> getValue s (TextField subject) \<noteq> [] \<and> getValue s (TextField description) \<noteq> [])"

text \<open>
  The checks of a step in the order of the specification, each with the message of its
  field; \<open>first_failure\<close> gives the message of the first check that fails, and
  \<open>report\<close> the result of a validation that stops there.
\<close>

fun first_failure :: "(bool \<times> jsstring) list \<Rightarrow> jsstring option" where
  "first_failure [] = None"
| "first_failure ((failing, message) # rest) =
     (if failing then Some message else first_failure rest)"

definition step1_checks :: "form \<Rightarrow> (bool \<times> jsstring) list" where
  "step1_checks s =
     [(trim (getValue s (TextField name)) = [], jstr ''Please enter your full name''),
      (\<not> isValidEmail (trim (getValue s (TextField email))),
       jstr ''Please enter a valid email address'')]"

definition step2_checks :: "form \<Rightarrow> (bool \<times> jsstring) list" where
  "step2_checks s =
     [(getValue s (SelectField recordType) = [], jstr ''Please select a department category''),
      (getValue s (SelectField type) = [], jstr ''Please select a request type''),
      (getValue s (SelectField reason) = [], jstr ''Please select a specific issue''),
      (getValue s (SelectField priority) = [], jstr ''Please select a priority level''),
      (trim (getValue s (TextField subject)) = [],
       jstr ''Please enter a subject for your request''),
      (length (trim (getValue s (TextField description))) < 10,
       jstr ''Please provide a detailed description (at least 10 characters)'')]"

definition report :: "jsstring option \<Rightarrow> form \<Rightarrow> bool \<times> form" where
  "report failure s =
     (case failure of None \<Rightarrow> (True, clearErrors s) | Some message \<Rightarrow> (False, showError message s))"

section \<open>Example pages\<close>

text \<open>A page with empty controls, no options and no badges.\<close>

definition blank_page :: page where
  "blank_page =
     \<lparr>texts = (\<lambda>_. []), selects = (\<lambda>_. \<lparr>options = [], selectedIndex = - 1\<rparr>),
      badges = [], activeBadges = [], errorMessages = [], review = (\<lambda>_. []),
      submitBtn = \<lparr>innerHTML = jstr ''Submit'', disabled = False\<rparr>,
      successMessages = 0, timers = []\<rparr>"

text \<open>A select element whose only option is selected.\<close>

definition chosen :: "string \<Rightarrow> string \<Rightarrow> select" where
  "chosen v txt = \<lparr>options = [(jstr v, jstr txt)], selectedIndex = 0\<rparr>"

text \<open>
  A page with every control of both steps filled in; the name, the e-mail address and
  the description are given.
\<close>

definition filled_page :: "string \<Rightarrow> string \<Rightarrow> string \<Rightarrow> page" where
  "filled_page n e d =
     blank_page
       \<lparr>texts := (\<lambda>i. case i of name \<Rightarrow> jstr n | email \<Rightarrow> jstr e | phone \<Rightarrow> []
                    | company \<Rightarrow> [] | subject \<Rightarrow> jstr ''Password reset''
                    | description \<Rightarrow> jstr d),
        selects := (\<lambda>i. case i of
                      recordType \<Rightarrow> chosen ''012NS0000086ez3'' ''IT Support''
                    | type \<Rightarrow> chosen ''Problem'' ''Report a problem''
                    | reason \<Rightarrow> chosen ''Password'' ''Password and login''
                    | priority \<Rightarrow> chosen ''P2'' ''High''),
        badges := [jstr ''P3'', jstr ''P2'', jstr ''P1'']\<rparr>"

text \<open>
  A form at step 2 with both steps filled in; the same form looked at again at step 1
  with an error message and an old review text on display; and the form after a save,
  a step back and an edit that puts \<open>x\<close> into every text control.
\<close>

definition filled_form :: form where
  "filled_form = nextStep (MultiStepForm (filled_page ''Jane Doe'' ''a@b.c'' ''1234567890''))"

definition revisited_form :: form where
  "revisited_form =
     setReview (TextField phone) (jstr ''old'')
       (showError (jstr ''Please enter your full name'') (prevStep filled_form))"

definition edited_form :: form where
  "edited_form =
     (prevStep (saveFormData filled_form))
       \<lparr>document := (document filled_form)\<lparr>texts := (\<lambda>_. jstr ''x'')\<rparr>\<rparr>"

text \<open>
  A department select with a placeholder option of empty value in front of one
  department, and a form whose page has it, with the option of the given index selected
  (none for \<open>-1\<close>).
\<close>

definition department_select :: "int \<Rightarrow> select" where
  "department_select i =
     \<lparr>options = [([], jstr ''Select a department''),
                 (jstr ''012NS0000086ez3'', jstr ''IT Support'')],
      selectedIndex = i\<rparr>"

definition department_form :: "int \<Rightarrow> form" where
  "department_form i =
     MultiStepForm
       (blank_page\<lparr>selects := (selects blank_page)(recordType := department_select i)\<rparr>)"

section \<open>Trimming\<close>

lemma length_jstr: "length (jstr s) = length s"
  by (simp add: jstr_def)

lemma trim_Nil: "trim [] = []"
  by (simp add: trim_def)

lemma dropWhile_unchanged: "s \<noteq> [] \<Longrightarrow> \<not> P (hd s) \<Longrightarrow> dropWhile P s = s"
  by (cases s) simp_all

lemma trim_eq_Nil_iff: "trim s = [] \<longleftrightarrow> (\<forall>c \<in> set s. isWhiteSpace c)"
proof
  assume "trim s = []"
  then have all: "\<forall>x \<in> set (dropWhile isWhiteSpace s). isWhiteSpace x"
    by (simp add: trim_def)
  have "dropWhile isWhiteSpace s = []"
  proof (rule ccontr)
    assume ne: "dropWhile isWhiteSpace s \<noteq> []"
    then have "\<not> isWhiteSpace (hd (dropWhile isWhiteSpace s))" by (rule hd_dropWhile)
    moreover from ne have "hd (dropWhile isWhiteSpace s) \<in> set (dropWhile isWhiteSpace s)"
      by (rule hd_in_set)
    ultimately show False using all by blast
  qed
  then show "\<forall>c \<in> set s. isWhiteSpace c" by simp
next
  assume "\<forall>c \<in> set s. isWhiteSpace c"
  then have d: "dropWhile isWhiteSpace s = []" by simp
  show "trim s = []" unfolding trim_def d by simp
qed

lemma length_trim_le: "length (trim s) \<le> length s"
proof -
  have "length (trim s) \<le> length (dropWhile isWhiteSpace s)"
    unfolding trim_def using length_dropWhile_le [of isWhiteSpace "rev (dropWhile isWhiteSpace s)"]
    by simp
  also have "\<dots> \<le> length s" by (rule length_dropWhile_le)
  finally show ?thesis .
qed

lemma trim_append_whitespace:
  assumes "\<forall>c \<in> set w. isWhiteSpace c"
  shows "trim (d @ w) = trim d"
proof (cases "\<forall>c \<in> set d. isWhiteSpace c")
  case True
  with assms have "\<forall>c \<in> set (d @ w). isWhiteSpace c" by auto
  with True show ?thesis by (simp only: trim_eq_Nil_iff [THEN iffD2])
next
  case False
  then obtain x where "x \<in> set d" "\<not> isWhiteSpace x" by blast
  then have "dropWhile isWhiteSpace (d @ w) = dropWhile isWhiteSpace d @ w"
    by (rule dropWhile_append1)
  moreover from assms
  have "dropWhile isWhiteSpace (rev w @ rev (dropWhile isWhiteSpace d))
          = dropWhile isWhiteSpace (rev (dropWhile isWhiteSpace d))"
    by (intro dropWhile_append2) simp
  ultimately show ?thesis by (simp add: trim_def)
qed

lemma trim_identity:
  "s \<noteq> [] \<Longrightarrow> \<not> isWhiteSpace (hd s) \<Longrightarrow> \<not> isWhiteSpace (last s) \<Longrightarrow> trim s = s"
proof -
  assume ne: "s \<noteq> []" and h: "\<not> isWhiteSpace (hd s)" and l: "\<not> isWhiteSpace (last s)"
  from ne h have "dropWhile isWhiteSpace s = s" by (rule dropWhile_unchanged)
  moreover from ne l have "dropWhile isWhiteSpace (rev s) = rev s"
    by (intro dropWhile_unchanged) (simp_all add: hd_rev)
  ultimately show ?thesis by (simp add: trim_def)
qed

section \<open>Frame lemmas\<close>

lemma clearErrors_frame:
  "currentStep (clearErrors s) = currentStep s"
  "totalSteps (clearErrors s) = totalSteps s"
  "formDataBackup (clearErrors s) = formDataBackup s"
  "texts (document (clearErrors s)) = texts (document s)"
  "selects (document (clearErrors s)) = selects (document s)"
  "badges (document (clearErrors s)) = badges (document s)"
  "review (document (clearErrors s)) = review (document s)"
  "submitBtn (document (clearErrors s)) = submitBtn (document s)"
  "successMessages (document (clearErrors s)) = successMessages (document s)"
  "timers (document (clearErrors s)) = timers (document s)"
  "errorMessages (document (clearErrors s)) = []"
  by (simp_all add: clearErrors_def)

lemma showError_frame:
  "currentStep (showError m s) = currentStep s"
  "totalSteps (showError m s) = totalSteps s"
  "formDataBackup (showError m s) = formDataBackup s"
  "texts (document (showError m s)) = texts (document s)"
  "selects (document (showError m s)) = selects (document s)"
  "badges (document (showError m s)) = badges (document s)"
  "review (document (showError m s)) = review (document s)"
  "submitBtn (document (showError m s)) = submitBtn (document s)"
  "successMessages (document (showError m s)) = successMessages (document s)"
  "timers (document (showError m s)) = timers (document s) @ [(5000, ClearErrors)]"
  "errorMessages (document (showError m s)) = [m]"
  by (simp_all add: showError_def clearErrors_def setTimeout_def Let_def)

lemma validateStep1_result:
  "validateStep1 s = (True, clearErrors s) \<or> (\<exists>m. validateStep1 s = (False, showError m s))"
  by (auto simp: validateStep1_def Let_def)

lemma validateStep2_result:
  "validateStep2 s = (True, clearErrors s) \<or> (\<exists>m. validateStep2 s = (False, showError m s))"
  by (auto simp: validateStep2_def Let_def)

lemma setReview_frame:
  "currentStep (setReview f v s) = currentStep s"
  "totalSteps (setReview f v s) = totalSteps s"
  "formDataBackup (setReview f v s) = formDataBackup s"
  "texts (document (setReview f v s)) = texts (document s)"
  "selects (document (setReview f v s)) = selects (document s)"
  "badges (document (setReview f v s)) = badges (document s)"
  "activeBadges (document (setReview f v s)) = activeBadges (document s)"
  "errorMessages (document (setReview f v s)) = errorMessages (document s)"
  "submitBtn (document (setReview f v s)) = submitBtn (document s)"
  "successMessages (document (setReview f v s)) = successMessages (document s)"
  "timers (document (setReview f v s)) = timers (document s)"
  "review (document (setReview f v s)) = (review (document s))(f := v)"
  by (simp_all add: setReview_def)

lemma getValue_setReview: "getValue (setReview f v s) g = getValue s g"
  by (cases g) (simp_all add: getValue_def setReview_frame)

lemma getSelectText_setReview: "getSelectText (setReview f v s) i = getSelectText s i"
  by (simp add: getSelectText_def setReview_frame)

lemma updateReview_frame:
  "currentStep (updateReview s) = currentStep s"
  "totalSteps (updateReview s) = totalSteps s"
  "formDataBackup (updateReview s) = formDataBackup s"
  "texts (document (updateReview s)) = texts (document s)"
  "selects (document (updateReview s)) = selects (document s)"
  "badges (document (updateReview s)) = badges (document s)"
  "activeBadges (document (updateReview s)) = activeBadges (document s)"
  "errorMessages (document (updateReview s)) = errorMessages (document s)"
  "submitBtn (document (updateReview s)) = submitBtn (document s)"
  "successMessages (document (updateReview s)) = successMessages (document s)"
  "timers (document (updateReview s)) = timers (document s)"
  by (simp_all add: updateReview_def Let_def setReview_frame)

lemma nextStep_bounds:
  "1 \<le> currentStep s \<and> currentStep s \<le> totalSteps s \<Longrightarrow>
   1 \<le> currentStep (nextStep s) \<and> currentStep (nextStep s) \<le> totalSteps (nextStep s)
   \<and> totalSteps (nextStep s) = totalSteps s"
  by (simp add: nextStep_def)

lemma prevStep_bounds:
  "1 \<le> currentStep s \<and> currentStep s \<le> totalSteps s \<Longrightarrow>
   1 \<le> currentStep (prevStep s) \<and> currentStep (prevStep s) \<le> totalSteps (prevStep s)
   \<and> totalSteps (prevStep s) = totalSteps s"
  by (simp add: prevStep_def)

lemma click_nextStep1_bounds:
  assumes "1 \<le> currentStep s \<and> currentStep s \<le> totalSteps s"
  shows "1 \<le> currentStep (click_nextStep1 s)
       \<and> currentStep (click_nextStep1 s) \<le> totalSteps (click_nextStep1 s)
       \<and> totalSteps (click_nextStep1 s) = totalSteps s"
proof -
  from validateStep1_result [of s] show ?thesis
  proof
    assume "validateStep1 s = (True, clearErrors s)"
    then have "click_nextStep1 s = nextStep (clearErrors s)"
      by (simp add: click_nextStep1_def)
    with nextStep_bounds [of "clearErrors s"] assms show ?thesis
      by (simp add: clearErrors_frame)
  next
    assume "\<exists>m. validateStep1 s = (False, showError m s)"
    then obtain m where "click_nextStep1 s = showError m s"
      by (auto simp: click_nextStep1_def)
    with assms show ?thesis by (simp add: showError_frame)
  qed
qed

lemma click_nextStep2_bounds:
  assumes "1 \<le> currentStep s \<and> currentStep s \<le> totalSteps s"
  shows "1 \<le> currentStep (click_nextStep2 s)
       \<and> currentStep (click_nextStep2 s) \<le> totalSteps (click_nextStep2 s)
       \<and> totalSteps (click_nextStep2 s) = totalSteps s"
proof -
  from validateStep2_result [of s] show ?thesis
  proof
    assume "validateStep2 s = (True, clearErrors s)"
    then have "click_nextStep2 s = nextStep (updateReview (clearErrors s))"
      by (simp add: click_nextStep2_def)
    with nextStep_bounds [of "updateReview (clearErrors s)"] assms show ?thesis
      by (simp add: clearErrors_frame updateReview_frame)
  next
    assume "\<exists>m. validateStep2 s = (False, showError m s)"
    then obtain m where "click_nextStep2 s = showError m s"
      by (auto simp: click_nextStep2_def)
    with assms show ?thesis by (simp add: showError_frame)
  qed
qed

lemma perform_bounds:
  "1 \<le> currentStep s \<and> currentStep s \<le> totalSteps s \<Longrightarrow>
   1 \<le> currentStep (perform c s) \<and> currentStep (perform c s) \<le> totalSteps (perform c s)
   \<and> totalSteps (perform c s) = totalSteps s"
  using nextStep_bounds [of s] prevStep_bounds [of s] click_nextStep1_bounds [of s]
    click_nextStep2_bounds [of s]
  by (cases c) simp_all

lemma run_bounds:
  "1 \<le> currentStep s \<and> currentStep s \<le> totalSteps s \<Longrightarrow>
   1 \<le> currentStep (fold perform cs s)
   \<and> currentStep (fold perform cs s) \<le> totalSteps (fold perform cs s)
   \<and> totalSteps (fold perform cs s) = totalSteps s"
proof (induction cs arbitrary: s)
  case Nil
  then show ?case by simp
next
  case (Cons c cs)
  from perform_bounds [of s c, OF Cons.prems]
  have b: "1 \<le> currentStep (perform c s) \<and> currentStep (perform c s) \<le> totalSteps (perform c s)"
    and t: "totalSteps (perform c s) = totalSteps s" by simp_all
  from Cons.IH [OF b] t show ?case by simp
qed

section \<open>The regular expression and the pattern\<close>

lemma regex_test_Once:
  "regex_test ((P, Once) # r) s \<longleftrightarrow> (\<exists>c v. s = c # v \<and> P c \<and> regex_test r v)"
  by (cases s) auto

lemma regex_test_OneOrMore:
  "regex_test ((P, OneOrMore) # r) s \<longleftrightarrow>
     (\<exists>u v. s = u @ v \<and> u \<noteq> [] \<and> (\<forall>c \<in> set u. P c) \<and> regex_test r v)"
proof (induction s)
  case Nil
  then show ?case by simp
next
  case (Cons c cs)
  show ?case
  proof
    assume "regex_test ((P, OneOrMore) # r) (c # cs)"
    then have pc: "P c" and alt: "regex_test ((P, OneOrMore) # r) cs \<or> regex_test r cs"
      by simp_all
    from alt show "\<exists>u v. c # cs = u @ v \<and> u \<noteq> [] \<and> (\<forall>c \<in> set u. P c) \<and> regex_test r v"
    proof
      assume "regex_test ((P, OneOrMore) # r) cs"
      with Cons.IH obtain u v where "cs = u @ v" "\<forall>c \<in> set u. P c" "regex_test r v"
        by blast
      with pc have "c # cs = (c # u) @ v \<and> c # u \<noteq> [] \<and> (\<forall>c \<in> set (c # u). P c)
          \<and> regex_test r v" by simp
      then show ?thesis by blast
    next
      assume "regex_test r cs"
      with pc have "c # cs = [c] @ cs \<and> [c] \<noteq> [] \<and> (\<forall>c \<in> set [c]. P c) \<and> regex_test r cs"
        by simp
      then show ?thesis by blast
    qed
  next
    assume "\<exists>u v. c # cs = u @ v \<and> u \<noteq> [] \<and> (\<forall>c \<in> set u. P c) \<and> regex_test r v"
    then obtain u v where uv: "c # cs = u @ v" "u \<noteq> []" "\<forall>c \<in> set u. P c" "regex_test r v"
      by blast
    then obtain u' where u: "u = c # u'" and cs: "cs = u' @ v"
      by (cases u) auto
    from uv u have pc: "P c" by simp
    show "regex_test ((P, OneOrMore) # r) (c # cs)"
    proof (cases "u' = []")
      case True
      with cs uv pc show ?thesis by simp
    next
      case False
      with uv u cs have "\<exists>u v. cs = u @ v \<and> u \<noteq> [] \<and> (\<forall>c \<in> set u. P c) \<and> regex_test r v"
        by auto
      with Cons.IH pc show ?thesis by simp
    qed
  qed
qed

lemma isValidEmail_iff_pattern: "isValidEmail s \<longleftrightarrow> email_pattern s"
  unfolding isValidEmail_def emailRegex_def email_pattern_def
  by (simp add: regex_test_Once regex_test_OneOrMore jstr_def ball_Un) blast

section \<open>When a step is valid\<close>

lemma not_isValidEmail_Nil: "\<not> isValidEmail []"
  by (simp add: isValidEmail_def emailRegex_def)

lemma fst_validateStep1:
  "fst (validateStep1 s) \<longleftrightarrow>
     trim (getValue s (TextField name)) \<noteq> []
     \<and> isValidEmail (trim (getValue s (TextField email)))"
  using not_isValidEmail_Nil by (auto simp: validateStep1_def Let_def)

lemma fst_validateStep2:
  "fst (validateStep2 s) \<longleftrightarrow>
     getValue s (SelectField recordType) \<noteq> [] \<and> getValue s (SelectField type) \<noteq> []
     \<and> getValue s (SelectField reason) \<noteq> [] \<and> getValue s (SelectField priority) \<noteq> []
     \<and> trim (getValue s (TextField subject)) \<noteq> []
     \<and> 10 \<le> length (trim (getValue s (TextField description)))"
  by (auto simp: validateStep2_def Let_def)

section \<open>What updateReview writes\<close>

lemma review_updateReview:
  "review (document (updateReview s)) =
     (review (document s))
       (TextField name := or_else (getValue s (TextField name)) (jstr ''Not provided''),
        TextField email := or_else (getValue s (TextField email)) (jstr ''Not provided''),
        TextField phone := or_else (getValue s (TextField phone)) (jstr ''Not provided''),
        TextField company := or_else (getValue s (TextField company)) (jstr ''Not provided''),
        SelectField recordType := or_else (getSelectText s recordType) (jstr ''Not selected''),
        SelectField type := or_else (getSelectText s type) (jstr ''Not selected''),
        SelectField reason := or_else (getSelectText s reason) (jstr ''Not selected''),
        SelectField priority :=
          or_else (getValue s (SelectField priority)) (jstr ''Not selected''),
        TextField subject := or_else (getValue s (TextField subject)) (jstr ''Not provided''),
        TextField description :=
          or_else (truncateText (getValue s (TextField description)) 150)
            (jstr ''Not provided''))"
  by (simp add: updateReview_def Let_def setReview_frame getValue_setReview
      getSelectText_setReview)

lemma getValue_cong:
  "texts (document s) = texts (document s') \<Longrightarrow> selects (document s) = selects (document s')
   \<Longrightarrow> getValue s f = getValue s' f"
  by (cases f) (simp_all add: getValue_def)

lemma review_updateReview_total:
  "review (document (updateReview s)) =
     (\<lambda>f. case f of
        TextField i \<Rightarrow>
          (if i = description
           then or_else (truncateText (getValue s (TextField description)) 150)
                  (jstr ''Not provided'')
           else or_else (getValue s (TextField i)) (jstr ''Not provided''))
      | SelectField i \<Rightarrow>
          (if i = priority
           then or_else (getValue s (SelectField priority)) (jstr ''Not selected'')
           else or_else (getSelectText s i) (jstr ''Not selected'')))"
proof
  fix f
  show "review (document (updateReview s)) f =
     (case f of
        TextField i \<Rightarrow>
          (if i = description
           then or_else (truncateText (getValue s (TextField description)) 150)
                  (jstr ''Not provided'')
           else or_else (getValue s (TextField i)) (jstr ''Not provided''))
      | SelectField i \<Rightarrow>
          (if i = priority
           then or_else (getValue s (SelectField priority)) (jstr ''Not selected'')
           else or_else (getSelectText s i) (jstr ''Not selected'')))"
  proof (cases f)
    case (TextField i)
    then show ?thesis by (cases i) (simp_all add: review_updateReview)
  next
    case (SelectField i)
    then show ?thesis by (cases i) (simp_all add: review_updateReview)
  qed
qed

section \<open>Restoring the saved values\<close>

lemma first_index_found:
  "0 \<le> first_index P xs \<Longrightarrow>
     nat (first_index P xs) < length xs \<and> P (xs ! nat (first_index P xs))"
proof (induction xs)
  case Nil
  then show ?case by simp
next
  case (Cons x xs)
  show ?case
  proof (cases "P x")
    case True
    then show ?thesis by simp
  next
    case False
    with Cons.prems have i: "0 \<le> first_index P xs"
      by (simp add: Let_def split: if_splits)
    with False have "first_index P (x # xs) = first_index P xs + 1"
      by (simp add: Let_def)
    moreover from i have "nat (first_index P xs + 1) = Suc (nat (first_index P xs))"
      by simp
    ultimately show ?thesis using Cons.IH [OF i] by simp
  qed
qed

lemma first_index_exists: "x \<in> set xs \<Longrightarrow> P x \<Longrightarrow> 0 \<le> first_index P xs"
  by (induction xs) (auto simp: Let_def)

lemma select_value_set:
  "select_value (select_set_value v sel) = (if v \<in> fst ` set (options sel) then v else [])"
proof (cases "v \<in> fst ` set (options sel)")
  case True
  then obtain opt where "opt \<in> set (options sel)" "fst opt = v" by auto
  then have "0 \<le> first_index (\<lambda>opt. fst opt = v) (options sel)"
    by (rule first_index_exists)
  with first_index_found [OF this]
  have "0 \<le> first_index (\<lambda>opt. fst opt = v) (options sel)"
    and "first_index (\<lambda>opt. fst opt = v) (options sel) < int (length (options sel))"
    and "fst (options sel ! nat (first_index (\<lambda>opt. fst opt = v) (options sel))) = v"
    by (simp_all add: nat_less_iff)
  with True show ?thesis
    by (simp add: select_value_def selectedOption_def select_set_value_def)
next
  case False
  have "\<not> 0 \<le> first_index (\<lambda>opt. fst opt = v) (options sel)"
  proof
    assume "0 \<le> first_index (\<lambda>opt. fst opt = v) (options sel)"
    from first_index_found [OF this]
    have "options sel ! nat (first_index (\<lambda>opt. fst opt = v) (options sel)) \<in> set (options sel)"
      and "fst (options sel ! nat (first_index (\<lambda>opt. fst opt = v) (options sel))) = v"
      by simp_all
    with False show False by force
  qed
  with False show ?thesis
    by (simp add: select_value_def selectedOption_def select_set_value_def)
qed

lemma select_value_in_options:
  "select_value sel \<noteq> [] \<Longrightarrow> select_value sel \<in> fst ` set (options sel)"
  by (auto simp: select_value_def selectedOption_def split: if_splits)

lemma options_restore_key: "options (selects (restore_key fd k p) i) = options (selects p i)"
  by (cases k) (simp_all add: restore_key_def select_set_value_def)

lemma options_fold_restore:
  "options (selects (fold (restore_key fd) ks p) i) = options (selects p i)"
  by (induction ks arbitrary: p) (simp_all add: options_restore_key)

lemma badges_restore_key: "badges (restore_key fd k p) = badges p"
  by (cases k) (simp_all add: restore_key_def)

lemma badges_fold_restore: "badges (fold (restore_key fd) ks p) = badges p"
  by (induction ks arbitrary: p) (simp_all add: badges_restore_key)

lemma element_value_set:
  "element_value (set_element_value k v p) g =
     (if g = k then
        (case k of TextField _ \<Rightarrow> v
         | SelectField i \<Rightarrow> if v \<in> fst ` set (options (selects p i)) then v else [])
      else element_value p g)"
  by (cases k; cases g) (simp_all add: select_value_set)

lemma element_value_restore_key:
  assumes "\<forall>i. saved fd (SelectField i) \<noteq> [] \<longrightarrow>
             saved fd (SelectField i) \<in> fst ` set (options (selects p i))"
  shows "element_value (restore_key fd k p) g =
     (if g = k \<and> saved fd g \<noteq> [] then saved fd g else element_value p g)"
proof (cases "saved fd k \<noteq> []")
  case False
  then show ?thesis by (auto simp: restore_key_def)
next
  case True
  then have "restore_key fd k p = set_element_value k (saved fd k) p"
    by (simp add: restore_key_def)
  with assms True show ?thesis
    by (cases k) (simp_all add: element_value_set del: set_element_value.simps)
qed

lemma element_value_fold_restore:
  assumes "\<forall>i. saved fd (SelectField i) \<noteq> [] \<longrightarrow>
             saved fd (SelectField i) \<in> fst ` set (options (selects p i))"
  shows "element_value (fold (restore_key fd) ks p) g =
     (if g \<in> set ks \<and> saved fd g \<noteq> [] then saved fd g else element_value p g)"
  using assms
proof (induction ks arbitrary: p)
  case Nil
  then show ?case by simp
next
  case (Cons k ks)
  from Cons.prems
  have "\<forall>i. saved fd (SelectField i) \<noteq> [] \<longrightarrow>
          saved fd (SelectField i) \<in> fst ` set (options (selects (restore_key fd k p) i))"
    by (simp add: options_restore_key)
  from Cons.IH [OF this] element_value_restore_key [OF Cons.prems, of k g]
  show ?case by auto
qed

lemma in_set_keys: "g \<in> set keys"
proof (cases g)
  case (TextField i)
  then show ?thesis by (cases i) (simp_all add: keys_def)
next
  case (SelectField i)
  then show ?thesis by (cases i) (simp_all add: keys_def)
qed

lemma getValue_loadFormData:
  assumes b: "formDataBackup s = Some fd"
    and o: "\<forall>i. saved fd (SelectField i) \<noteq> [] \<longrightarrow>
             saved fd (SelectField i) \<in> fst ` set (options (selects (document s) i))"
  shows "getValue (loadFormData s) g = (if saved fd g \<noteq> [] then saved fd g else getValue s g)"
proof -
  let ?s1 = "s\<lparr>document := fold (restore_key fd) keys (document s)\<rparr>"
  let ?p = "saved fd (SelectField priority)"
  let ?i = "first_index (\<lambda>v. v = ?p) (badges (document ?s1))"
  have v1: "getValue ?s1 g = (if saved fd g \<noteq> [] then saved fd g else getValue s g)" for g
    using element_value_fold_restore [OF o, of keys g] in_set_keys [of g]
    by (simp add: getValue_def)
  show ?thesis
  proof (cases "?p \<noteq> [] \<and> 0 \<le> ?i")
    case False
    then have "loadFormData s = ?s1" using b by (auto simp: loadFormData_def Let_def)
    with v1 show ?thesis by simp
  next
    case True
    then have l: "loadFormData s = selectPriority (nat ?i) ?s1"
      using b by (simp add: loadFormData_def Let_def)
    from True first_index_found [of "\<lambda>v. v = ?p" "badges (document ?s1)"]
    have i: "nat ?i < length (badges (document ?s1))" "badges (document ?s1) ! nat ?i = ?p"
      by simp_all
    from True o have po: "?p \<in> fst ` set (options (selects (document s) priority))" by blast
    have "getValue (selectPriority (nat ?i) ?s1) g =
        (if g = SelectField priority then ?p else getValue ?s1 g)"
      using i po
      by (cases g)
        (simp_all add: selectPriority_def getValue_def select_value_set options_fold_restore)
    with v1 [of g] v1 [of "SelectField priority"] True l show ?thesis by simp
  qed
qed

lemma currentStep_loadFormData: "currentStep (loadFormData s) = currentStep s"
  by (simp add: loadFormData_def selectPriority_def Let_def split: option.splits)

section \<open>Claims\<close>

subsection \<open>C1: validity of a step\<close>

text \<open>
  C1, as the code has it. \<open>validateStep1\<close> returns true exactly when the trimmed name is
  not empty and the trimmed e-mail address matches the pattern; \<open>validateStep2\<close> returns
  true exactly when the four selects have a non-empty value, the trimmed subject is not
  empty and the trimmed description has at least 10 code units. Whenever a required field
  of the step is empty the step is invalid, and with the selects and the subject filled, a
  description of exactly 10 code units that trimming leaves as it is makes
  \<open>validateStep2\<close> succeed.
\<close>
theorem validateStep_valid_iff:
  "(fst (validateStep1 s) \<longleftrightarrow>
      trim (getValue s (TextField name)) \<noteq> []
      \<and> email_pattern (trim (getValue s (TextField email))))
   \<and> (fst (validateStep2 s) \<longleftrightarrow>
      getValue s (SelectField recordType) \<noteq> [] \<and> getValue s (SelectField type) \<noteq> []
      \<and> getValue s (SelectField reason) \<noteq> [] \<and> getValue s (SelectField priority) \<noteq> []
      \<and> trim (getValue s (TextField subject)) \<noteq> []
      \<and> 10 \<le> length (trim (getValue s (TextField description))))
   \<and> (\<not> step1_required_nonempty s \<longrightarrow> \<not> fst (validateStep1 s))
   \<and> (\<not> step2_required_nonempty s \<longrightarrow> \<not> fst (validateStep2 s))
   \<and> (getValue s (SelectField recordType) \<noteq> [] \<and> getValue s (SelectField type) \<noteq> []
      \<and> getValue s (SelectField reason) \<noteq> [] \<and> getValue s (SelectField priority) \<noteq> []
      \<and> trim (getValue s (TextField subject)) \<noteq> []
      \<and> length (getValue s (TextField description)) = 10
      \<and> trim (getValue s (TextField description)) = getValue s (TextField description)
      \<longrightarrow> fst (validateStep2 s))"
proof -
  have empty1: "\<not> step1_required_nonempty s \<Longrightarrow> \<not> fst (validateStep1 s)"
    using not_isValidEmail_Nil
    by (auto simp: step1_required_nonempty_def fst_validateStep1 trim_Nil)
  have empty2: "\<not> step2_required_nonempty s \<Longrightarrow> \<not> fst (validateStep2 s)"
    by (auto simp: step2_required_nonempty_def fst_validateStep2 trim_Nil)
  show ?thesis
    using empty1 empty2
    by (simp add: fst_validateStep1 fst_validateStep2 isValidEmail_iff_pattern)
qed

text \<open>
  The theorem at three forms: all of step 2 filled with the description
  \<open>1234567890\<close>, an empty name, and an empty description.
\<close>

theorem validateStep_valid_iff_witness:
  "step2_required_nonempty (MultiStepForm (filled_page ''Jane Doe'' ''jane@example.org'' ''1234567890''))
   \<and> length (getValue (MultiStepForm (filled_page ''Jane Doe'' ''jane@example.org'' ''1234567890''))
        (TextField description)) = 10
   \<and> fst (validateStep2 (MultiStepForm (filled_page ''Jane Doe'' ''jane@example.org'' ''1234567890'')))
   \<and> \<not> step1_required_nonempty (MultiStepForm (filled_page [] ''jane@example.org'' ''1234567890''))
   \<and> \<not> fst (validateStep1 (MultiStepForm (filled_page [] ''jane@example.org'' ''1234567890'')))
   \<and> \<not> step2_required_nonempty (MultiStepForm (filled_page ''Jane Doe'' ''jane@example.org'' []))
   \<and> \<not> fst (validateStep2 (MultiStepForm (filled_page ''Jane Doe'' ''jane@example.org'' [])))"
proof -
  let ?s = "MultiStepForm (filled_page ''Jane Doe'' ''jane@example.org'' ''1234567890'')"
  let ?n = "MultiStepForm (filled_page [] ''jane@example.org'' ''1234567890'')"
  let ?d = "MultiStepForm (filled_page ''Jane Doe'' ''jane@example.org'' [])"
  have vals:
    "getValue ?s (SelectField recordType) \<noteq> []" "getValue ?s (SelectField type) \<noteq> []"
    "getValue ?s (SelectField reason) \<noteq> []" "getValue ?s (SelectField priority) \<noteq> []"
    "getValue ?s (TextField subject) \<noteq> []"
    "getValue ?s (TextField description) = jstr ''1234567890''"
    by (simp_all add: getValue_def MultiStepForm_def filled_page_def blank_page_def chosen_def
        select_value_def selectedOption_def jstr_def)
  have subj: "trim (getValue ?s (TextField subject)) \<noteq> []"
    by (simp add: getValue_def MultiStepForm_def filled_page_def blank_page_def
        trim_def jstr_def isWhiteSpace_def)
  have desc: "trim (jstr ''1234567890'') = jstr ''1234567890''"
    by (simp add: trim_def jstr_def isWhiteSpace_def)
  have n: "\<not> step1_required_nonempty ?n"
    by (simp add: step1_required_nonempty_def getValue_def MultiStepForm_def filled_page_def
        blank_page_def jstr_def)
  have d: "\<not> step2_required_nonempty ?d"
    by (simp add: step2_required_nonempty_def getValue_def MultiStepForm_def filled_page_def
        blank_page_def jstr_def)
  have req: "step2_required_nonempty ?s"
    using vals by (simp add: step2_required_nonempty_def jstr_def)
  from validateStep_valid_iff [of ?s] vals subj desc
  have "fst (validateStep2 ?s)" by (simp add: length_jstr)
  moreover from validateStep_valid_iff [of ?n] n have "\<not> fst (validateStep1 ?n)" by blast
  moreover from validateStep_valid_iff [of ?d] d have "\<not> fst (validateStep2 ?d)" by blast
  ultimately show ?thesis using n d req vals by (simp add: length_jstr)
qed

text \<open>
  C1 as stated fails: with every required field of step 2 non-empty and the description
  \<open>short\<close>, \<open>validateStep2\<close> returns false (line 142 asks for 10 characters).
\<close>

theorem validateStep2_nonempty_counterexample:
  "step2_required_nonempty (MultiStepForm (filled_page ''Jane Doe'' ''jane@example.org'' ''short''))
   \<and> \<not> fst (validateStep2 (MultiStepForm (filled_page ''Jane Doe'' ''jane@example.org'' ''short'')))"
proof -
  let ?s = "MultiStepForm (filled_page ''Jane Doe'' ''jane@example.org'' ''short'')"
  have vals:
    "getValue ?s (SelectField recordType) \<noteq> []" "getValue ?s (SelectField type) \<noteq> []"
    "getValue ?s (SelectField reason) \<noteq> []" "getValue ?s (SelectField priority) \<noteq> []"
    "getValue ?s (TextField subject) \<noteq> []"
    "getValue ?s (TextField description) = jstr ''short''"
    by (simp_all add: getValue_def MultiStepForm_def filled_page_def blank_page_def chosen_def
        select_value_def selectedOption_def jstr_def)
  have "length (trim (jstr ''short'')) \<le> 5"
    using length_trim_le [of "jstr ''short''"] by (simp add: length_jstr)
  then have "\<not> fst (validateStep2 ?s)"
    using vals by (simp add: fst_validateStep2)
  moreover have "step2_required_nonempty ?s"
    using vals by (simp add: step2_required_nonempty_def jstr_def)
  ultimately show ?thesis by blast
qed

subsection \<open>C2: the step stays within bounds\<close>

text \<open>
  C2. After any run of calls from the state the constructor builds (\<open>nextStep\<close>,
  \<open>prevStep\<close>, and the clicks on the two Next buttons, which validate first),
  \<open>currentStep\<close> is between 1 and \<open>totalSteps\<close>, which stays 3. \<open>nextStep\<close> does not
  go beyond \<open>totalSteps\<close> and changes nothing at the last step; \<open>prevStep\<close> does not go
  below 1 and changes nothing at step 1. From step 3, two calls of \<open>prevStep\<close> reach
  step 1 and a third one changes nothing.
\<close>

theorem step_within_bounds:
  assumes "r = fold perform calls (MultiStepForm p)"
  shows "1 \<le> currentStep r \<and> currentStep r \<le> totalSteps r \<and> totalSteps r = 3
    \<and> currentStep (nextStep r) \<le> totalSteps r
    \<and> 1 \<le> currentStep (prevStep r)
    \<and> (currentStep r = totalSteps r \<longrightarrow> nextStep r = r)
    \<and> (currentStep r = 1 \<longrightarrow> prevStep r = r)
    \<and> (currentStep r = 3 \<longrightarrow>
          currentStep (prevStep (prevStep r)) = 1
          \<and> prevStep (prevStep (prevStep r)) = prevStep (prevStep r))"
proof -
  have init: "1 \<le> currentStep (MultiStepForm p)
      \<and> currentStep (MultiStepForm p) \<le> totalSteps (MultiStepForm p)"
    by (simp add: MultiStepForm_def)
  from run_bounds [OF init, of calls] assms
  have b: "1 \<le> currentStep r" "currentStep r \<le> totalSteps r" "totalSteps r = 3"
    by (simp_all add: MultiStepForm_def)
  from b have n: "currentStep (nextStep r) \<le> totalSteps r" by (simp add: nextStep_def)
  from b have p: "1 \<le> currentStep (prevStep r)" by (simp add: prevStep_def)
  have last: "currentStep r = totalSteps r \<longrightarrow> nextStep r = r" by (simp add: nextStep_def)
  have first: "currentStep r = 1 \<longrightarrow> prevStep r = r" by (simp add: prevStep_def)
  have twice: "currentStep r = 3 \<longrightarrow>
          currentStep (prevStep (prevStep r)) = 1
          \<and> prevStep (prevStep (prevStep r)) = prevStep (prevStep r)"
    by (simp add: prevStep_def)
  from b n p last first twice show ?thesis by blast
qed

text \<open>
  The theorem after four calls of \<open>nextStep\<close>, which end at the last step, and after
  one step forward and two back, which end at step 1.
\<close>

theorem step_within_bounds_witness:
  "currentStep (fold perform [advance, advance, advance, advance] (MultiStepForm blank_page)) = 3
   \<and> nextStep (fold perform [advance, advance, advance, advance] (MultiStepForm blank_page))
       = fold perform [advance, advance, advance, advance] (MultiStepForm blank_page)
   \<and> currentStep (prevStep (prevStep
        (fold perform [advance, advance, advance, advance] (MultiStepForm blank_page)))) = 1
   \<and> prevStep (prevStep (prevStep
        (fold perform [advance, advance, advance, advance] (MultiStepForm blank_page))))
       = prevStep (prevStep
        (fold perform [advance, advance, advance, advance] (MultiStepForm blank_page)))
   \<and> currentStep (fold perform [advance, retreat, retreat] (MultiStepForm blank_page)) = 1
   \<and> prevStep (fold perform [advance, retreat, retreat] (MultiStepForm blank_page))
       = fold perform [advance, retreat, retreat] (MultiStepForm blank_page)"
proof -
  let ?a = "fold perform [advance, advance, advance, advance] (MultiStepForm blank_page)"
  let ?b = "fold perform [advance, retreat, retreat] (MultiStepForm blank_page)"
  have a: "currentStep ?a = 3" "totalSteps ?a = 3"
    by (simp_all add: MultiStepForm_def nextStep_def)
  have b: "currentStep ?b = 1"
    by (simp add: MultiStepForm_def nextStep_def prevStep_def)
  from step_within_bounds [OF refl, of "[advance, advance, advance, advance]" blank_page] a
  have "nextStep ?a = ?a \<and> currentStep (prevStep (prevStep ?a)) = 1
      \<and> prevStep (prevStep (prevStep ?a)) = prevStep (prevStep ?a)"
    by simp
  moreover from step_within_bounds [OF refl, of "[advance, retreat, retreat]" blank_page] b
  have "prevStep ?b = ?b" by blast
  ultimately show ?thesis using a b by blast
qed

subsection \<open>C4: truncation\<close>

text \<open>
  C4. \<open>truncateText(s, 150)\<close> is \<open>s\<close> when \<open>s\<close> has at most 150 code units, and
  otherwise its first 150 code units followed by three dots; truncating the result again
  gives the same string.
\<close>

theorem truncateText_law:
  "truncateText s 150 = (if length s \<le> 150 then s else take 150 s @ jstr ''...'')
   \<and> truncateText (truncateText s 150) 150 = truncateText s 150"
  by (simp add: truncateText_def length_jstr)

subsection \<open>C3: the e-mail address\<close>

text \<open>
  C3, as the code has it. With a name that is not empty after trimming,
  \<open>validateStep1\<close> accepts exactly when the e-mail address, trimmed, matches the
  pattern; when it does not, the validation fails and the one message on display is
  \<open>Please enter a valid email address\<close>.
\<close>

theorem validateStep1_email:
  assumes "trim (getValue s (TextField name)) \<noteq> []"
  shows "(fst (validateStep1 s) \<longleftrightarrow> email_pattern (trim (getValue s (TextField email))))
    \<and> (\<not> email_pattern (trim (getValue s (TextField email))) \<longrightarrow>
          validateStep1 s = (False, showError (jstr ''Please enter a valid email address'') s)
          \<and> errorMessages (document (snd (validateStep1 s)))
              = [jstr ''Please enter a valid email address''])"
  using assms not_isValidEmail_Nil
  by (auto simp: validateStep1_def Let_def isValidEmail_iff_pattern [symmetric] showError_frame)

text \<open>The theorem at the name \<open>Jane Doe\<close> and the address \<open>not-an-email\<close>.\<close>

theorem validateStep1_email_witness:
  "trim (getValue (MultiStepForm (filled_page ''Jane Doe'' ''not-an-email'' [])) (TextField name)) \<noteq> []
   \<and> \<not> email_pattern (trim (getValue (MultiStepForm (filled_page ''Jane Doe'' ''not-an-email'' []))
          (TextField email)))
   \<and> \<not> fst (validateStep1 (MultiStepForm (filled_page ''Jane Doe'' ''not-an-email'' [])))
   \<and> errorMessages (document (snd (validateStep1
          (MultiStepForm (filled_page ''Jane Doe'' ''not-an-email'' [])))))
       = [jstr ''Please enter a valid email address'']"
proof -
  let ?s = "MultiStepForm (filled_page ''Jane Doe'' ''not-an-email'' [])"
  have n: "trim (getValue ?s (TextField name)) \<noteq> []"
    by (simp add: getValue_def MultiStepForm_def filled_page_def blank_page_def
        trim_def jstr_def isWhiteSpace_def)
  have "\<not> isValidEmail (trim (getValue ?s (TextField email)))"
    by (simp add: getValue_def MultiStepForm_def filled_page_def blank_page_def
        trim_def jstr_def isWhiteSpace_def isValidEmail_def emailRegex_def notSpaceAt_def)
  then have e: "\<not> email_pattern (trim (getValue ?s (TextField email)))"
    by (simp add: isValidEmail_iff_pattern)
  from validateStep1_email [OF n] e n show ?thesis by blast
qed

text \<open>
  C3 as stated fails: the address \<open>a@b.c\<close> with a space in front does not match the
  pattern, and \<open>validateStep1\<close> accepts it, because line 83 trims the value first.
\<close>

theorem validateStep1_untrimmed_email_counterexample:
  "fst (validateStep1 (MultiStepForm (filled_page ''Jane Doe'' '' a@b.c'' [])))
   \<and> \<not> email_pattern (getValue (MultiStepForm (filled_page ''Jane Doe'' '' a@b.c'' []))
          (TextField email))"
proof -
  let ?s = "MultiStepForm (filled_page ''Jane Doe'' '' a@b.c'' [])"
  have n: "trim (getValue ?s (TextField name)) \<noteq> []"
    by (simp add: getValue_def MultiStepForm_def filled_page_def blank_page_def
        trim_def jstr_def isWhiteSpace_def)
  have t: "isValidEmail (trim (getValue ?s (TextField email)))"
    by (simp add: getValue_def MultiStepForm_def filled_page_def blank_page_def
        trim_def jstr_def isWhiteSpace_def isValidEmail_def emailRegex_def notSpaceAt_def)
  have "\<not> isValidEmail (getValue ?s (TextField email))"
    by (simp add: getValue_def MultiStepForm_def filled_page_def blank_page_def
        jstr_def isWhiteSpace_def isValidEmail_def emailRegex_def notSpaceAt_def)
  then have u: "\<not> email_pattern (getValue ?s (TextField email))"
    by (simp add: isValidEmail_iff_pattern)
  from n t have "fst (validateStep1 ?s)" by (simp add: fst_validateStep1)
  with u show ?thesis by blast
qed

subsection \<open>C5: the first failing field\<close>

text \<open>
  C5. Each validation returns what the first failing check of its list, in the order of the
  fields, reports: false and that check's message as the one message on display, or true
  and no message on display when no check fails. With a name that is empty after trimming,
  \<open>validateStep1\<close> fails with \<open>Please enter your full name\<close>, whatever the e-mail
  address.
\<close>

theorem validateStep_first_failure:
  "validateStep1 s = report (first_failure (step1_checks s)) s
   \<and> validateStep2 s = report (first_failure (step2_checks s)) s
   \<and> errorMessages (document (snd (report (Some message) s))) = [message]
   \<and> errorMessages (document (snd (report None s))) = []
   \<and> (trim (getValue s (TextField name)) = [] \<longrightarrow>
        validateStep1 s = (False, showError (jstr ''Please enter your full name'') s))"
proof -
  have v1: "validateStep1 s = report (first_failure (step1_checks s)) s"
    using not_isValidEmail_Nil
    by (auto simp: validateStep1_def step1_checks_def report_def Let_def)
  have v2: "validateStep2 s = report (first_failure (step2_checks s)) s"
    by (auto simp: validateStep2_def step2_checks_def report_def Let_def)
  have m: "errorMessages (document (snd (report (Some message) s))) = [message]"
    by (simp add: report_def showError_frame)
  have c: "errorMessages (document (snd (report None s))) = []"
    by (simp add: report_def clearErrors_frame)
  have n: "trim (getValue s (TextField name)) = [] \<longrightarrow>
        validateStep1 s = (False, showError (jstr ''Please enter your full name'') s)"
    by (simp add: validateStep1_def Let_def)
  from v1 v2 m c n show ?thesis by blast
qed

text \<open>The theorem at an empty name and the address \<open>a@b.c\<close>.\<close>

theorem validateStep_first_failure_witness:
  "trim (getValue (MultiStepForm (filled_page [] ''a@b.c'' [])) (TextField name)) = []
   \<and> getValue (MultiStepForm (filled_page [] ''a@b.c'' [])) (TextField email) = jstr ''a@b.c''
   \<and> validateStep1 (MultiStepForm (filled_page [] ''a@b.c'' []))
       = (False, showError (jstr ''Please enter your full name'')
            (MultiStepForm (filled_page [] ''a@b.c'' [])))"
proof -
  let ?s = "MultiStepForm (filled_page [] ''a@b.c'' [])"
  have n: "trim (getValue ?s (TextField name)) = []"
    by (simp add: getValue_def MultiStepForm_def filled_page_def blank_page_def
        trim_def jstr_def)
  have e: "getValue ?s (TextField email) = jstr ''a@b.c''"
    by (simp add: getValue_def MultiStepForm_def filled_page_def blank_page_def)
  from validateStep_first_failure [of ?s] n e show ?thesis by blast
qed

subsection \<open>C6: the guard of the submission\<close>

text \<open>
  C6. With no priority set, \<open>handleFormSubmission\<close> prevents the default action of the
  event and shows \<open>Please select a priority level\<close>; the submit button, the success
  messages and the step are as before, and the only callback it schedules clears the
  message. With a priority set, the event is left alone, the submit button is disabled and
  relabelled, and the success message is scheduled.
\<close>

theorem handleFormSubmission_guard:
  "(getValue s (SelectField priority) = [] \<longrightarrow>
      defaultPrevented (fst (handleFormSubmission e s))
      \<and> errorMessages (document (snd (handleFormSubmission e s)))
          = [jstr ''Please select a priority level'']
      \<and> submitBtn (document (snd (handleFormSubmission e s))) = submitBtn (document s)
      \<and> successMessages (document (snd (handleFormSubmission e s)))
          = successMessages (document s)
      \<and> timers (document (snd (handleFormSubmission e s)))
          = timers (document s) @ [(5000, ClearErrors)]
      \<and> currentStep (snd (handleFormSubmission e s)) = currentStep s)
   \<and> (getValue s (SelectField priority) \<noteq> [] \<longrightarrow>
      fst (handleFormSubmission e s) = e
      \<and> disabled (submitBtn (document (snd (handleFormSubmission e s))))
      \<and> innerHTML (submitBtn (document (snd (handleFormSubmission e s)))) = submitting_label
      \<and> timers (document (snd (handleFormSubmission e s)))
          = timers (document s) @ [(1000, ShowSuccessMessage)])"
  by (simp add: handleFormSubmission_def preventDefault_def showError_frame setTimeout_def
      Let_def)

text \<open>The theorem on a page without a priority and on a page with one.\<close>

theorem handleFormSubmission_guard_witness:
  "getValue (MultiStepForm blank_page) (SelectField priority) = []
   \<and> defaultPrevented
        (fst (handleFormSubmission \<lparr>defaultPrevented = False\<rparr> (MultiStepForm blank_page)))
   \<and> \<not> disabled (submitBtn (document
        (snd (handleFormSubmission \<lparr>defaultPrevented = False\<rparr> (MultiStepForm blank_page)))))
   \<and> getValue (MultiStepForm (filled_page ''Jane Doe'' ''a@b.c'' ''1234567890''))
        (SelectField priority) \<noteq> []
   \<and> disabled (submitBtn (document
        (snd (handleFormSubmission \<lparr>defaultPrevented = False\<rparr>
           (MultiStepForm (filled_page ''Jane Doe'' ''a@b.c'' ''1234567890''))))))"
proof -
  let ?u = "MultiStepForm blank_page"
  let ?f = "MultiStepForm (filled_page ''Jane Doe'' ''a@b.c'' ''1234567890'')"
  let ?e = "\<lparr>defaultPrevented = False\<rparr>"
  have u: "getValue ?u (SelectField priority) = []"
    by (simp add: getValue_def MultiStepForm_def blank_page_def select_value_def
        selectedOption_def)
  have f: "getValue ?f (SelectField priority) \<noteq> []"
    by (simp add: getValue_def MultiStepForm_def filled_page_def blank_page_def chosen_def
        select_value_def selectedOption_def jstr_def)
  have b: "\<not> disabled (submitBtn (document ?u))"
    by (simp add: MultiStepForm_def blank_page_def)
  from handleFormSubmission_guard [of ?u ?e] u b
  have "defaultPrevented (fst (handleFormSubmission ?e ?u))
      \<and> \<not> disabled (submitBtn (document (snd (handleFormSubmission ?e ?u))))"
    by simp
  moreover from handleFormSubmission_guard [of ?f ?e] f
  have "disabled (submitBtn (document (snd (handleFormSubmission ?e ?f))))"
    by blast
  ultimately show ?thesis using u f by blast
qed

subsection \<open>C7: the review\<close>




subsection \<open>C8: what the review depends on\<close>

text \<open>
  C8, as the code has it. Two forms with the same value in every control and the same
  display text of the selected option in department category, request type and issue
  reason get the same review texts, whatever else differs between them, the review shown
  before included; \<open>updateReview\<close> leaves the controls, the step, the number of steps
  and the backup as they are, and running it a second time changes nothing.
\<close>

theorem updateReview_pure:
  assumes "getValue s = getValue s'"
    and "getSelectText s recordType = getSelectText s' recordType"
    and "getSelectText s type = getSelectText s' type"
    and "getSelectText s reason = getSelectText s' reason"
  shows "review (document (updateReview s)) = review (document (updateReview s'))
    \<and> texts (document (updateReview s)) = texts (document s)
    \<and> selects (document (updateReview s)) = selects (document s)
    \<and> currentStep (updateReview s) = currentStep s
    \<and> totalSteps (updateReview s) = totalSteps s
    \<and> formDataBackup (updateReview s) = formDataBackup s
    \<and> updateReview (updateReview s) = updateReview s"
proof -
  have "review (document (updateReview s)) f = review (document (updateReview s')) f" for f
  proof (cases f)
    case (TextField i)
    then show ?thesis by (cases i) (simp_all add: review_updateReview assms)
  next
    case (SelectField i)
    then show ?thesis by (cases i) (simp_all add: review_updateReview assms)
  qed
  then have r: "review (document (updateReview s)) = review (document (updateReview s'))"
    by (simp add: fun_eq_iff)
  have t2: "getSelectText (updateReview s) = getSelectText s"
    by (simp add: getSelectText_def fun_eq_iff updateReview_frame)
  have v2: "getValue (updateReview s) = getValue s"
    using getValue_cong [of "updateReview s" s] by (simp add: fun_eq_iff updateReview_frame)
  have r2: "review (document (updateReview (updateReview s))) = review (document (updateReview s))"
    by (simp only: review_updateReview_total t2 v2)
  have "document (updateReview (updateReview s)) = document (updateReview s)"
    by (rule page.equality) (simp_all add: updateReview_frame r2)
  then have i: "updateReview (updateReview s) = updateReview s"
    by (intro form.equality) (simp_all add: updateReview_frame)
  from r i show ?thesis by (simp add: updateReview_frame)
qed

text \<open>
  The theorem at the filled form and the same form at step 1 with an error message and
  an old review text.
\<close>

theorem updateReview_pure_witness:
  "getValue revisited_form = getValue filled_form
   \<and> getSelectText revisited_form recordType = getSelectText filled_form recordType
   \<and> getSelectText revisited_form type = getSelectText filled_form type
   \<and> getSelectText revisited_form reason = getSelectText filled_form reason
   \<and> currentStep revisited_form \<noteq> currentStep filled_form
   \<and> review (document revisited_form) (TextField phone)
       \<noteq> review (document filled_form) (TextField phone)
   \<and> review (document (updateReview revisited_form))
       = review (document (updateReview filled_form))"
proof -
  have t: "texts (document revisited_form) = texts (document filled_form)"
    by (simp add: revisited_form_def setReview_frame showError_frame prevStep_def)
  have s: "selects (document revisited_form) = selects (document filled_form)"
    by (simp add: revisited_form_def setReview_frame showError_frame prevStep_def)
  have v: "getValue revisited_form = getValue filled_form"
    using getValue_cong [OF t s] by (simp add: fun_eq_iff)
  have l: "getSelectText revisited_form i = getSelectText filled_form i" for i
    using s by (simp add: getSelectText_def)
  have c: "currentStep revisited_form \<noteq> currentStep filled_form"
    by (simp add: revisited_form_def setReview_frame showError_frame prevStep_def
        filled_form_def nextStep_def MultiStepForm_def)
  have r: "review (document revisited_form) (TextField phone)
       \<noteq> review (document filled_form) (TextField phone)"
    by (simp add: revisited_form_def setReview_frame filled_form_def nextStep_def
        MultiStepForm_def filled_page_def blank_page_def jstr_def)
  from updateReview_pure [OF v l l l] v l c r show ?thesis by blast
qed

text \<open>
  C8 as stated fails: the department select with the placeholder selected and with no
  option selected has the empty value both times, so every control has the same value in
  the two forms, and the review shows the placeholder's text for one and
  \<open>Not selected\<close> for the other (lines 284-285 read the option's text).
\<close>

theorem updateReview_same_values_counterexample:
  "getValue (department_form 0) = getValue (department_form (- 1))
   \<and> review (document (updateReview (department_form 0))) (SelectField recordType)
       = jstr ''Select a department''
   \<and> review (document (updateReview (department_form (- 1)))) (SelectField recordType)
       = jstr ''Not selected''
   \<and> review (document (updateReview (department_form 0)))
       \<noteq> review (document (updateReview (department_form (- 1))))"
proof -
  have "getValue (department_form 0) f = getValue (department_form (- 1)) f" for f
  proof (cases f)
    case (TextField i)
    then show ?thesis
      by (simp add: department_form_def MultiStepForm_def getValue_def)
  next
    case (SelectField i)
    then show ?thesis
      by (cases i)
        (simp_all add: department_form_def department_select_def MultiStepForm_def
          getValue_def select_value_def selectedOption_def blank_page_def)
  qed
  then have v: "getValue (department_form 0) = getValue (department_form (- 1))"
    by (simp add: fun_eq_iff)
  have a: "review (document (updateReview (department_form 0))) (SelectField recordType)
       = jstr ''Select a department''"
    by (simp add: review_updateReview or_else_def getSelectText_def department_form_def
        department_select_def MultiStepForm_def selectedOption_def jstr_def)
  have b: "review (document (updateReview (department_form (- 1)))) (SelectField recordType)
       = jstr ''Not selected''"
    by (simp add: review_updateReview or_else_def getSelectText_def department_form_def
        department_select_def MultiStepForm_def selectedOption_def)
  have "jstr ''Select a department'' \<noteq> jstr ''Not selected''"
    by (simp add: jstr_def)
  with a b have "review (document (updateReview (department_form 0)))
       \<noteq> review (document (updateReview (department_form (- 1))))"
    by metis
  with v a b show ?thesis by blast
qed

subsection \<open>C9: validation trims the text fields\<close>

text \<open>
  C9. A name of white space only fails \<open>validateStep1\<close> as a missing name, and with a
  name an e-mail address of white space only fails it as an invalid address. With the
  four selects filled, a subject of white space only fails \<open>validateStep2\<close> as a missing
  subject; with a subject, a description of white space only fails it, the validation
  succeeds exactly when the trimmed description has at least 10 code units, and a
  description of 12 code units whose last three are white space has at most 9 after
  trimming and fails.
\<close>

theorem validation_trims:
  "((\<forall>c \<in> set (getValue s (TextField name)). isWhiteSpace c) \<longrightarrow>
      validateStep1 s = (False, showError (jstr ''Please enter your full name'') s))
   \<and> (trim (getValue s (TextField name)) \<noteq> []
      \<and> (\<forall>c \<in> set (getValue s (TextField email)). isWhiteSpace c) \<longrightarrow>
      validateStep1 s = (False, showError (jstr ''Please enter a valid email address'') s))
   \<and> (getValue s (SelectField recordType) \<noteq> [] \<and> getValue s (SelectField type) \<noteq> []
      \<and> getValue s (SelectField reason) \<noteq> [] \<and> getValue s (SelectField priority) \<noteq> []
      \<longrightarrow>
      ((\<forall>c \<in> set (getValue s (TextField subject)). isWhiteSpace c) \<longrightarrow>
         validateStep2 s
           = (False, showError (jstr ''Please enter a subject for your request'') s))
      \<and> (trim (getValue s (TextField subject)) \<noteq> [] \<longrightarrow>
           ((\<forall>c \<in> set (getValue s (TextField description)). isWhiteSpace c) \<longrightarrow>
              validateStep2 s
                = (False, showError
                    (jstr ''Please provide a detailed description (at least 10 characters)'') s))
           \<and> (fst (validateStep2 s)
                \<longleftrightarrow> 10 \<le> length (trim (getValue s (TextField description))))
           \<and> (length (getValue s (TextField description)) = 12
              \<and> (\<forall>c \<in> set (drop 9 (getValue s (TextField description))). isWhiteSpace c)
              \<longrightarrow> length (trim (getValue s (TextField description))) \<le> 9
                  \<and> validateStep2 s
                      = (False, showError
                          (jstr ''Please provide a detailed description (at least 10 characters)'')
                          s))))"
proof -
  have n: "(\<forall>c \<in> set (getValue s (TextField name)). isWhiteSpace c) \<longrightarrow>
      validateStep1 s = (False, showError (jstr ''Please enter your full name'') s)"
    by (simp add: validateStep1_def Let_def trim_eq_Nil_iff)
  have e: "trim (getValue s (TextField name)) \<noteq> []
      \<and> (\<forall>c \<in> set (getValue s (TextField email)). isWhiteSpace c) \<longrightarrow>
      validateStep1 s = (False, showError (jstr ''Please enter a valid email address'') s)"
    by (simp add: validateStep1_def Let_def trim_eq_Nil_iff)
  have short: "length (trim d) \<le> 9 \<and> length (trim d) < 10"
    if "length d = 12" and "\<forall>c \<in> set (drop 9 d). isWhiteSpace c" for d :: jsstring
  proof -
    have "trim d = trim (take 9 d @ drop 9 d)" by simp
    also have "\<dots> = trim (take 9 d)" using that(2) by (rule trim_append_whitespace)
    finally have "length (trim d) \<le> length (take 9 d)"
      using length_trim_le [of "take 9 d"] by simp
    with that(1) show ?thesis by simp
  qed
  have two: "validateStep2 s =
      (if trim (getValue s (TextField subject)) = [] then
         (False, showError (jstr ''Please enter a subject for your request'') s)
       else if length (trim (getValue s (TextField description))) < 10 then
         (False, showError
            (jstr ''Please provide a detailed description (at least 10 characters)'') s)
       else (True, clearErrors s))"
    if "getValue s (SelectField recordType) \<noteq> [] \<and> getValue s (SelectField type) \<noteq> []
      \<and> getValue s (SelectField reason) \<noteq> [] \<and> getValue s (SelectField priority) \<noteq> []"
    using that by (auto simp: validateStep2_def Let_def)
  have blank: "length (trim d) < 10" if "\<forall>c \<in> set d. isWhiteSpace c" for d :: jsstring
    using that trim_eq_Nil_iff [of d] by simp
  have subj: "trim (getValue s (TextField subject)) = []"
    if "\<forall>c \<in> set (getValue s (TextField subject)). isWhiteSpace c"
    using that by (simp add: trim_eq_Nil_iff)
  from n e two subj blank [of "getValue s (TextField description)"]
    short [of "getValue s (TextField description)"]
  show ?thesis by simp
qed

text \<open>
  The theorem at a name of three spaces and at the description \<open>123456789\<close> followed
  by three spaces.
\<close>

theorem validation_trims_witness:
  "getValue (MultiStepForm (filled_page ''   '' ''a@b.c'' ''1234567890'')) (TextField name)
     = jstr ''   ''
   \<and> validateStep1 (MultiStepForm (filled_page ''   '' ''a@b.c'' ''1234567890''))
     = (False, showError (jstr ''Please enter your full name'')
          (MultiStepForm (filled_page ''   '' ''a@b.c'' ''1234567890'')))
   \<and> getValue (MultiStepForm (filled_page ''Jane Doe'' ''a@b.c'' ''123456789   ''))
        (TextField description) = jstr ''123456789   ''
   \<and> length (getValue (MultiStepForm (filled_page ''Jane Doe'' ''a@b.c'' ''123456789   ''))
        (TextField description)) = 12
   \<and> validateStep2 (MultiStepForm (filled_page ''Jane Doe'' ''a@b.c'' ''123456789   ''))
     = (False, showError
          (jstr ''Please provide a detailed description (at least 10 characters)'')
          (MultiStepForm (filled_page ''Jane Doe'' ''a@b.c'' ''123456789   '')))"
proof -
  let ?a = "MultiStepForm (filled_page ''   '' ''a@b.c'' ''1234567890'')"
  let ?b = "MultiStepForm (filled_page ''Jane Doe'' ''a@b.c'' ''123456789   '')"
  have a: "getValue ?a (TextField name) = jstr ''   ''"
    by (simp add: getValue_def MultiStepForm_def filled_page_def blank_page_def)
  have aw: "\<forall>c \<in> set (getValue ?a (TextField name)). isWhiteSpace c"
    by (simp add: a) (simp add: jstr_def isWhiteSpace_def)
  have b: "getValue ?b (TextField description) = jstr ''123456789   ''"
    by (simp add: getValue_def MultiStepForm_def filled_page_def blank_page_def)
  have bl: "length (getValue ?b (TextField description)) = 12"
    by (simp add: b length_jstr)
  have bw: "\<forall>c \<in> set (drop 9 (getValue ?b (TextField description))). isWhiteSpace c"
    by (simp add: b) (simp add: jstr_def isWhiteSpace_def)
  have vals:
    "getValue ?b (SelectField recordType) \<noteq> []" "getValue ?b (SelectField type) \<noteq> []"
    "getValue ?b (SelectField reason) \<noteq> []" "getValue ?b (SelectField priority) \<noteq> []"
    by (simp_all add: getValue_def MultiStepForm_def filled_page_def blank_page_def chosen_def
        select_value_def selectedOption_def jstr_def)
  have subj: "trim (getValue ?b (TextField subject)) \<noteq> []"
    by (simp add: getValue_def MultiStepForm_def filled_page_def blank_page_def
        trim_def jstr_def isWhiteSpace_def)
  from validation_trims [of ?a] aw
  have "validateStep1 ?a = (False, showError (jstr ''Please enter your full name'') ?a)"
    by blast
  moreover from validation_trims [of ?b] vals subj bl bw
  have "validateStep2 ?b = (False, showError
          (jstr ''Please provide a detailed description (at least 10 characters)'') ?b)"
    by blast
  ultimately show ?thesis using a b bl by blast
qed

subsection \<open>C10: saving and loading\<close>

text \<open>
  C10. Take a form \<open>s'\<close> that holds the backup \<open>saveFormData\<close> made of \<open>s\<close> and whose
  select elements have the options they had then. After \<open>loadFormData\<close> every control
  whose saved value was not empty has that value, every other control has the value it
  had in \<open>s'\<close>, and \<open>currentStep\<close> is that of \<open>s'\<close>: the backup records the step of
  \<open>s\<close> and \<open>loadFormData\<close> does not put it back.
\<close>

theorem autosave_round_trip:
  assumes "formDataBackup s' = formDataBackup (saveFormData s)"
    and "\<forall>i. options (selects (document s') i) = options (selects (document s) i)"
  shows "getValue (loadFormData s') f
           = (if getValue s f \<noteq> [] then getValue s f else getValue s' f)
    \<and> currentStep (loadFormData s') = currentStep s'
    \<and> formDataBackup (saveFormData s) = Some \<lparr>saved = getValue s, savedStep = currentStep s\<rparr>"
proof -
  let ?fd = "\<lparr>saved = getValue s, savedStep = currentStep s\<rparr>"
  from assms(1) have b: "formDataBackup s' = Some ?fd" by (simp add: saveFormData_def)
  have "\<forall>i. saved ?fd (SelectField i) \<noteq> [] \<longrightarrow>
          saved ?fd (SelectField i) \<in> fst ` set (options (selects (document s') i))"
    using assms(2) select_value_in_options by (simp add: getValue_def)
  from getValue_loadFormData [OF b this, of f] currentStep_loadFormData [of s']
  show ?thesis by (simp add: saveFormData_def)
qed

text \<open>
  The theorem at the filled form, saved at step 2, then taken back to step 1 and edited:
  loading restores the name and the priority, leaves the phone number, which was saved
  empty, as edited, and leaves the step at 1.
\<close>

theorem autosave_round_trip_witness:
  "formDataBackup edited_form = formDataBackup (saveFormData filled_form)
   \<and> getValue filled_form (TextField name) = jstr ''Jane Doe''
   \<and> getValue edited_form (TextField name) = jstr ''x''
   \<and> getValue (loadFormData edited_form) (TextField name) = jstr ''Jane Doe''
   \<and> getValue filled_form (TextField phone) = []
   \<and> getValue (loadFormData edited_form) (TextField phone) = jstr ''x''
   \<and> getValue (loadFormData edited_form) (SelectField priority) = jstr ''P2''
   \<and> currentStep filled_form = 2
   \<and> currentStep (loadFormData edited_form) = 1"
proof -
  have b: "formDataBackup edited_form = formDataBackup (saveFormData filled_form)"
    by (simp add: edited_form_def prevStep_def)
  have o: "\<forall>i. options (selects (document edited_form) i)
             = options (selects (document filled_form) i)"
    by (simp add: edited_form_def)
  have f: "getValue filled_form (TextField name) = jstr ''Jane Doe''"
    "getValue filled_form (TextField phone) = []"
    "getValue filled_form (SelectField priority) = jstr ''P2''"
    "currentStep filled_form = 2"
    by (simp_all add: filled_form_def nextStep_def MultiStepForm_def getValue_def
        filled_page_def blank_page_def chosen_def select_value_def selectedOption_def)
  have e: "getValue edited_form (TextField name) = jstr ''x''"
    "getValue edited_form (TextField phone) = jstr ''x''"
    by (simp_all add: edited_form_def getValue_def)
  have c: "currentStep edited_form = 1"
    using f(4) by (simp add: edited_form_def prevStep_def saveFormData_def)
  have j: "jstr ''Jane Doe'' \<noteq> []" "jstr ''P2'' \<noteq> []" by (simp_all add: jstr_def)
  from autosave_round_trip [OF b o, of "TextField name"]
    autosave_round_trip [OF b o, of "TextField phone"]
    autosave_round_trip [OF b o, of "SelectField priority"] b f e c j
  show ?thesis by simp
qed

end
